theory Spec2Isabelle
  imports Main "HOL-Library.Word"
begin

section \<open>Aligned allocation on top of the backing allocator (utils.c)\<close>

text \<open>
  The development covers \<^verbatim>\<open>malloc_align\<close> and \<^verbatim>\<open>free_align\<close> of
  \<^verbatim>\<open>src/libstrongswan/utils/utils.c\<close>.

  Machine types (LP64): \<^verbatim>\<open>size_t\<close>, \<^verbatim>\<open>uintptr_t\<close> and \<^verbatim>\<open>void*\<close> are 64-bit words, so
  that \<open>+\<close> and \<open>-\<close> on them wrap around and pointer comparison is unsigned comparison;
  \<^verbatim>\<open>u_int8_t\<close> is an 8-bit word. The null pointer is the address \<open>0\<close>.
\<close>

type_synonym addr = "64 word"
type_synonym byte = "8 word"

subsection \<open>The world around the two functions\<close>

text \<open>
  The functions read and write raw memory and call three collaborators: \<^verbatim>\<open>malloc\<close>,
  \<^verbatim>\<open>free\<close> and the diagnostic macro \<^verbatim>\<open>DBG1\<close>. Memory is a total map from addresses to
  bytes. The calls are recorded in the order they happen (most recent first), the way a
  test double of the backing allocator would record them: the byte counts passed to
  \<^verbatim>\<open>malloc\<close>, the pointers passed to \<^verbatim>\<open>free\<close>, and the messages given to \<^verbatim>\<open>DBG1\<close>.
\<close>

record world =
  mem :: "addr \<Rightarrow> byte"
  malloc_log :: "addr list"
  free_log :: "addr list"
  dbg_log :: "string list"

text \<open>\<^verbatim>\<open>memset(p, c, n)\<close>: the \<open>n\<close> bytes starting at \<open>p\<close> receive the value \<open>c\<close>.\<close>

fun memset :: "(addr \<Rightarrow> byte) \<Rightarrow> addr \<Rightarrow> byte \<Rightarrow> nat \<Rightarrow> (addr \<Rightarrow> byte)" where
  "memset m p c 0 = m"
| "memset m p c (Suc n) = memset (m(p := c)) (p + 1) c n"

subsection \<open>\<^verbatim>\<open>malloc_align\<close>\<close>

text \<open>
  Line 61, \<^verbatim>\<open>pad = align - ((uintptr_t)ptr % align)\<close>: \<^verbatim>\<open>align\<close> is converted to the
  64-bit unsigned type of the other operand, remainder and difference are taken there,
  and the assignment to the \<^verbatim>\<open>u_int8_t\<close> variable keeps the low 8 bits.
\<close>

definition padding :: "byte \<Rightarrow> addr \<Rightarrow> byte" where
  "padding align ptr = ucast ((ucast align :: addr) - ptr mod ucast align)"

text \<open>Lines 50 to 53: an alignment of 0 is replaced by 1.\<close>

definition effective_align :: "byte \<Rightarrow> byte" where
  "effective_align align = (if align = 0 then 1 else align)"

text \<open>
  The backing allocator is the parameter \<open>malloc\<close>: it maps the requested byte count to
  the pointer it hands out, \<open>0\<close> for failure. \<^verbatim>\<open>sizeof(pad)\<close> is 1, and the sum
  \<^verbatim>\<open>align + sizeof(pad) + size\<close> is formed in \<^verbatim>\<open>size_t\<close>. The parameter \<^verbatim>\<open>size\<close> is
  written \<open>sz\<close>. The result is the returned pointer together with the world after the
  call.
\<close>

definition malloc_align ::
  "(addr \<Rightarrow> addr) \<Rightarrow> world \<Rightarrow> addr \<Rightarrow> byte \<Rightarrow> addr \<times> world" where
  "malloc_align malloc w sz align0 =
     (let align = effective_align align0;
          n = ucast align + 1 + sz;
          ptr = malloc n;
          w1 = w\<lparr>malloc_log := n # malloc_log w\<rparr>
      in if ptr = 0 then (0, w1)
         else
           let pad = padding align ptr
           in (ptr + ucast pad, w1\<lparr>mem := memset (mem w1) ptr pad (unat pad)\<rparr>))"

subsection \<open>\<^verbatim>\<open>free_align\<close>\<close>

text \<open>
  The \<^verbatim>\<open>for\<close> loop of lines 75 to 82, entered with \<open>pad\<close> already read from
  \<^verbatim>\<open>*pos\<close>. The loop
  condition \<^verbatim>\<open>(void*)pos >= ptr - pad\<close> compares addresses, \<^verbatim>\<open>pos--\<close> steps one byte down.
  The result is \<open>False\<close> when the body takes the early \<^verbatim>\<open>return\<close> (a byte differs from
  \<open>pad\<close>) and \<open>True\<close> when the condition ends the loop. The last argument counts the
  executions of the comparison \<^verbatim>\<open>*pos != pad\<close>; it is not a program variable and does
  not influence the control flow. A scan that never ends has the value \<open>None\<close>.
\<close>

partial_function (option) free_align_loop ::
  "(addr \<Rightarrow> byte) \<Rightarrow> addr \<Rightarrow> byte \<Rightarrow> addr \<Rightarrow> nat \<Rightarrow> (bool \<times> nat) option" where
  [code]: "free_align_loop m ptr pad pos n =
     (if ptr - ucast pad \<le> pos
      then (if m pos \<noteq> pad then Some (False, Suc n)
            else free_align_loop m ptr pad (pos - 1) (Suc n))
      else Some (True, n))"

definition invalid_free_msg :: string where
  "invalid_free_msg = ''!!!! invalid free_align() !!!!''"

text \<open>
  \<^verbatim>\<open>free_align\<close> itself: \<^verbatim>\<open>pos = ptr - 1\<close>, \<^verbatim>\<open>pad = *pos\<close>, the scan, and then either
  the diagnostic (and nothing else) or \<^verbatim>\<open>free(ptr - pad)\<close>.
\<close>

definition free_align :: "world \<Rightarrow> addr \<Rightarrow> world option" where
  "free_align w ptr =
     (let pos = ptr - 1;
          pad = mem w pos
      in case free_align_loop (mem w) ptr pad pos 0 of
           None \<Rightarrow> None
         | Some (False, n) \<Rightarrow> Some (w\<lparr>dbg_log := invalid_free_msg # dbg_log w\<rparr>)
         | Some (True, n) \<Rightarrow> Some (w\<lparr>free_log := (ptr - ucast pad) # free_log w\<rparr>))"

subsection \<open>Test doubles and sample worlds\<close>

text \<open>
  A backing allocator that hands out the block at \<open>base\<close> whatever the request;
  \<open>malloc_at 0\<close> is the exhausted allocator.
\<close>

definition malloc_at :: "addr \<Rightarrow> addr \<Rightarrow> addr" where
  "malloc_at base n = base"

text \<open>A world whose memory holds the byte \<open>c\<close> everywhere and in which nothing was called yet.\<close>

definition world_of :: "byte \<Rightarrow> world" where
  "world_of c = \<lparr>mem = (\<lambda>a. c), malloc_log = [], free_log = [], dbg_log = []\<rparr>"

text \<open>The store \<^verbatim>\<open>*(u_int8_t*)a = v\<close> of a client (or of a stray write).\<close>

definition poke :: "world \<Rightarrow> addr \<Rightarrow> byte \<Rightarrow> world" where
  "poke w a v = w\<lparr>mem := (mem w)(a := v)\<rparr>"

subsection \<open>Vocabulary of the statements\<close>

text \<open>
  The \<open>sz\<close> bytes starting at \<open>p\<close> lie inside the block of \<open>n\<close> bytes that starts
  at \<open>base\<close> (addresses read as natural numbers, so nothing wraps).
\<close>

definition within_block :: "addr \<Rightarrow> addr \<Rightarrow> addr \<Rightarrow> addr \<Rightarrow> bool" where
  "within_block base n p sz = (unat base \<le> unat p \<and> unat p + unat sz \<le> unat base + unat n)"

section \<open>Facts about words, padding and \<^verbatim>\<open>memset\<close>\<close>

lemma unat_ucast_byte: "unat (ucast (a :: byte) :: addr) = unat a"
proof -
  have "unat a < 2 ^ 64" using unsigned_less [of a, where 'a = nat] by simp
  then show ?thesis by (simp add: unsigned_ucast_eq take_bit_nat_eq_self)
qed

lemma unat_byte_le: "unat (a :: byte) \<le> 255"
  using unsigned_less [of a, where 'a = nat] by simp

lemma unat_add_of_nat:
  fixes b :: addr
  assumes "unat b + r < 2 ^ 64"
  shows "unat (b + of_nat r) = unat b + r"
proof -
  have "r < 2 ^ 64" using assms by simp
  then have "unat (of_nat r :: addr) = r" by (simp add: unat_of_nat)
  with assms show ?thesis by (simp add: unat_add_lem [THEN iffD1])
qed

lemma below_self: "(b :: addr) \<noteq> 0 \<Longrightarrow> \<not> b \<le> b - 1"
  using measure_unat [of b] by (simp add: word_le_nat_alt)

lemma wrap_aux: "(255::nat) < N \<Longrightarrow> d \<le> 255 \<Longrightarrow> 0 < p \<Longrightarrow> p - 1 < p + N - d"
  by arith

lemma of_nat_small_nz:
  assumes "0 < j" and "j < 256"
  shows "(of_nat j :: addr) \<noteq> 0"
proof -
  have "j < 2 ^ 64" using assms(2) by simp
  then have "unat (of_nat j :: addr) = j" by (simp add: unat_of_nat)
  with assms(1) show ?thesis by (metis unat_0 less_numeral_extra(3))
qed

lemma round_up_nat: "0 < (a::nat) \<Longrightarrow> (b + (a - b mod a)) mod a = 0"
proof -
  assume a: "0 < a"
  then have "b mod a \<le> a" by simp
  then have "b + (a - b mod a) = (b - b mod a) + a"
    using mod_less_eq_dividend [of b a] by linarith
  also have "\<dots> = a * (b div a) + a" by (simp add: minus_mod_eq_mult_div)
  finally show ?thesis by simp
qed

text \<open>
  The padding length as a number: no step of line 61 wraps or truncates, because the
  remainder is below \<open>align\<close> and \<open>align\<close> fits a byte.
\<close>

lemma unat_padding:
  assumes "align \<noteq> 0"
  shows "unat (padding align ptr) = unat align - unat ptr mod unat align"
proof -
  let ?a = "ucast align :: addr"
  have pos: "0 < unat align" using assms by (simp add: unat_gt_0)
  have ua: "unat ?a = unat align" by (rule unat_ucast_byte)
  have m: "unat (ptr mod ?a) = unat ptr mod unat align"
    by (simp add: unat_mod ua)
  have lt: "unat ptr mod unat align < unat align" using pos by simp
  have le: "ptr mod ?a \<le> ?a"
    by (simp add: word_le_nat_alt m ua) (use lt in linarith)
  have d: "unat (?a - ptr mod ?a) = unat align - unat ptr mod unat align"
    using le by (simp add: unat_sub m ua)
  have "unat align - unat ptr mod unat align \<le> 255"
    using unat_byte_le [of align] by linarith
  then show ?thesis
    unfolding padding_def by (simp add: unsigned_ucast_eq d take_bit_nat_eq_self)
qed

lemma padding_range:
  assumes "align \<noteq> 0"
  shows "1 \<le> unat (padding align ptr)" and "unat (padding align ptr) \<le> unat align"
proof -
  have pos: "0 < unat align" using assms by (simp add: unat_gt_0)
  then have "unat ptr mod unat align < unat align" by simp
  then show "1 \<le> unat (padding align ptr)" and "unat (padding align ptr) \<le> unat align"
    by (simp_all add: unat_padding [OF assms])
qed

lemma effective_align_nz: "effective_align align \<noteq> 0"
  by (simp add: effective_align_def)

text \<open>
  \<^verbatim>\<open>memset\<close> writes every byte of its range and no other byte.
\<close>

lemma memset_keep: "m q = c \<Longrightarrow> memset m p c n q = c"
  by (induction n arbitrary: m p) simp_all

lemma memset_written: "i < n \<Longrightarrow> memset m p c n (p + of_nat i) = c"
proof (induction n arbitrary: m p i)
  case 0
  then show ?case by simp
next
  case (Suc n)
  show ?case
  proof (cases i)
    case 0
    then show ?thesis by (simp add: memset_keep)
  next
    case (Suc j)
    with Suc.prems have "j < n" by simp
    from Suc.IH [OF this, of "m(p := c)" "p + 1"] Suc show ?thesis
      by (simp add: add.assoc del: fun_upd_apply)
  qed
qed

lemma memset_frame: "(\<And>i. i < n \<Longrightarrow> q \<noteq> p + of_nat i) \<Longrightarrow> memset m p c n q = m q"
proof (induction n arbitrary: m p)
  case 0
  then show ?case by simp
next
  case (Suc n)
  have q0: "q \<noteq> p" using Suc.prems [of 0] by simp
  have "memset (m(p := c)) (p + 1) c n q = (m(p := c)) q"
  proof (rule Suc.IH)
    fix i assume "i < n"
    then show "q \<noteq> p + 1 + of_nat i" using Suc.prems [of "Suc i"] by (simp add: add.assoc)
  qed
  then show ?case using q0 by simp
qed

lemma mem_poke: "mem (poke w a v) = (mem w)(a := v)"
  by (simp add: poke_def)

section \<open>The two outcomes of \<^verbatim>\<open>malloc_align\<close>\<close>

lemma malloc_align_fail:
  "malloc (ucast (effective_align align) + 1 + sz) = 0 \<Longrightarrow>
   malloc_align malloc w sz align
     = (0, w\<lparr>malloc_log := (ucast (effective_align align) + 1 + sz) # malloc_log w\<rparr>)"
  by (simp add: malloc_align_def Let_def)

lemma malloc_align_success:
  "malloc (ucast (effective_align align) + 1 + sz) = base \<Longrightarrow> base \<noteq> 0 \<Longrightarrow>
   malloc_align malloc w sz align
     = (base + ucast (padding (effective_align align) base),
        w\<lparr>malloc_log := (ucast (effective_align align) + 1 + sz) # malloc_log w,
          mem := memset (mem w) base (padding (effective_align align) base)
                   (unat (padding (effective_align align) base))\<rparr>)"
  by (simp add: malloc_align_def Let_def)

section \<open>The backward scan of \<^verbatim>\<open>free_align\<close>\<close>

text \<open>
  One round of the loop, by the three ways it can go.
\<close>

lemma loop_exit:
  "\<not> ptr - ucast pad \<le> pos \<Longrightarrow> free_align_loop m ptr pad pos n = Some (True, n)"
  by (subst free_align_loop.simps) simp

lemma loop_bad:
  "ptr - ucast pad \<le> pos \<Longrightarrow> m pos \<noteq> pad \<Longrightarrow>
   free_align_loop m ptr pad pos n = Some (False, Suc n)"
  by (subst free_align_loop.simps) simp

lemma loop_next:
  "ptr - ucast pad \<le> pos \<Longrightarrow> m pos = pad \<Longrightarrow>
   free_align_loop m ptr pad pos n = free_align_loop m ptr pad (pos - 1) (Suc n)"
  by (subst free_align_loop.simps) simp

text \<open>
  A scan that starts \<open>r\<close> bytes above its lower bound \<open>b = ptr - pad\<close>, with the
  bound not null and the \<open>r\<close> bytes inside the address space, ends after at most \<open>r\<close>
  comparisons and succeeds exactly when all \<open>r\<close> bytes hold \<open>pad\<close>.
\<close>

lemma scan_char:
  assumes b: "b = ptr - ucast pad" and nz: "b \<noteq> 0" and fit: "unat b + r \<le> 2 ^ 64"
  shows "\<exists>k\<le>r. free_align_loop m ptr pad (b + of_nat r - 1) n
            = Some ((\<forall>i<r. m (b + of_nat i) = pad), n + k)"
  using fit
proof (induction r arbitrary: n)
  case 0
  have "free_align_loop m ptr pad (b - 1) n = Some (True, n)"
    using below_self [OF nz] b by (simp add: loop_exit)
  then show ?case by simp
next
  case (Suc r)
  from Suc.prems have lt: "unat b + r < 2 ^ 64" by simp
  have pos: "b + of_nat (Suc r) - 1 = b + of_nat r" by simp
  have ge: "ptr - ucast pad \<le> b + of_nat r"
    using unat_add_of_nat [OF lt] b by (simp add: word_le_nat_alt)
  show ?case
  proof (cases "m (b + of_nat r) = pad")
    case False
    then have "free_align_loop m ptr pad (b + of_nat r) n = Some (False, Suc n)"
      using ge by (simp add: loop_bad)
    moreover have "\<not> (\<forall>i<Suc r. m (b + of_nat i) = pad)" using False by blast
    ultimately show ?thesis unfolding pos by (intro exI [of _ 1]) simp
  next
    case True
    from Suc.IH [of "Suc n"] lt obtain k where k: "k \<le> r"
      and run: "free_align_loop m ptr pad (b + of_nat r - 1) (Suc n)
                  = Some ((\<forall>i<r. m (b + of_nat i) = pad), Suc n + k)"
      by auto
    have all: "(\<forall>i<Suc r. m (b + of_nat i) = pad) = (\<forall>i<r. m (b + of_nat i) = pad)"
      using True by (auto simp: less_Suc_eq)
    have "free_align_loop m ptr pad (b + of_nat r) n
            = Some ((\<forall>i<Suc r. m (b + of_nat i) = pad), n + Suc k)"
      using ge True run by (simp add: loop_next all)
    then show ?thesis unfolding pos using k by (intro exI [of _ "Suc k"]) simp
  qed
qed

text \<open>
  When \<open>ptr - pad\<close> wraps below address 0, the bound lies above \<open>ptr - 1\<close> and the loop
  condition is false at once.
\<close>

lemma scan_wrapped:
  fixes ptr :: addr and pad :: byte
  assumes nz: "ptr \<noteq> 0" and lt: "unat ptr < unat pad"
  shows "\<not> ptr - ucast pad \<le> ptr - 1"
proof -
  have up: "unat (ucast pad :: addr) = unat pad" by (rule unat_ucast_byte)
  have p1: "unat (ptr - 1) = unat ptr - 1"
    using nz by (simp add: unat_minus_one)
  have b: "unat (ptr - ucast pad) = unat ptr + 2 ^ 64 - unat pad"
    using lt by (simp add: unat_sub_if' up)
  have small: "unat pad \<le> 255" by (rule unat_byte_le)
  have pos: "0 < unat ptr" using nz by (simp add: unat_gt_0)
  have "(255::nat) < 2 ^ 64" by simp
  from wrap_aux [OF this small pos] have "unat ptr - 1 < unat ptr + 2 ^ 64 - unat pad" .
  then show ?thesis
    by (simp add: word_le_nat_alt p1 b)
qed

text \<open>
  Both cases together: whenever the lower bound is not the null address, the scan from
  \<open>ptr - 1\<close> ends within \<open>pad\<close> comparisons.
\<close>

lemma scan_window:
  fixes ptr :: addr and pad :: byte
  assumes nz: "ptr - ucast pad \<noteq> 0"
  shows "\<exists>ok k. k \<le> unat pad
           \<and> free_align_loop m ptr pad (ptr - 1) n = Some (ok, n + k)
           \<and> ((\<forall>i<unat pad. m (ptr - ucast pad + of_nat i) = pad) \<longrightarrow> ok)
           \<and> (unat (ptr - ucast pad) + unat pad \<le> 2 ^ 64 \<longrightarrow> ok \<longrightarrow>
                (\<forall>i<unat pad. m (ptr - ucast pad + of_nat i) = pad))"
proof (cases "unat (ptr - ucast pad) + unat pad \<le> 2 ^ 64")
  case True
  have pos: "ptr - ucast pad + of_nat (unat pad) - 1 = ptr - 1" by simp
  from scan_char [OF refl nz True, of m n] show ?thesis unfolding pos by blast
next
  case False
  have up: "unat (ucast pad :: addr) = unat pad" by (rule unat_ucast_byte)
  have p0: "ptr \<noteq> 0"
  proof
    assume z: "ptr = 0"
    have "unat pad < 2 ^ 64" using unat_byte_le [of pad] by simp
    then have "unat (0 - ucast pad :: addr) + unat pad \<le> 2 ^ 64"
      by (simp only: unat_sub_if' up) simp
    with False z show False by simp
  qed
  have lt: "unat ptr < unat pad"
  proof (rule ccontr)
    assume "\<not> unat ptr < unat pad"
    then have ge: "unat pad \<le> unat ptr" by simp
    then have "unat (ptr - ucast pad) + unat pad = unat ptr" by (simp add: unat_sub_if' up)
    moreover have "unat ptr < 2 ^ 64" using unsigned_less [of ptr, where 'a = nat] by simp
    ultimately show False using False by simp
  qed
  have "free_align_loop m ptr pad (ptr - 1) n = Some (True, n + 0)"
    using scan_wrapped [OF p0 lt] by (simp add: loop_exit)
  with False show ?thesis by blast
qed

text \<open>
  A byte that differs from \<open>pad\<close> at a position the loop condition admits, all
  positions above it being admitted too, makes the scan take the early return.
\<close>

lemma scan_finds:
  assumes "\<forall>i\<le>k. ptr - ucast pad \<le> pos - of_nat i" and "m (pos - of_nat k) \<noteq> pad"
  shows "\<exists>j\<le>k. free_align_loop m ptr pad pos n = Some (False, n + Suc j)"
  using assms
proof (induction k arbitrary: pos n)
  case 0
  from "0.prems"(1) have ge: "ptr - ucast pad \<le> pos" by simp
  from "0.prems"(2) have ne: "m pos \<noteq> pad" by simp
  from loop_bad [where m = m and n = n, OF ge ne] show ?case by simp
next
  case (Suc k)
  from Suc.prems(1) have "ptr - ucast pad \<le> pos - of_nat (0::nat)" by blast
  then have ge: "ptr - ucast pad \<le> pos" by simp
  show ?case
  proof (cases "m pos = pad")
    case False
    from loop_bad [where m = m and n = n, OF ge False]
    have "free_align_loop m ptr pad pos n = Some (False, n + Suc 0)" by simp
    then show ?thesis by blast
  next
    case True
    have a: "\<forall>i\<le>k. ptr - ucast pad \<le> pos - 1 - of_nat i"
    proof (intro allI impI)
      fix i assume "i \<le> k"
      then have "Suc i \<le> Suc k" by simp
      with Suc.prems(1) have "ptr - ucast pad \<le> pos - of_nat (Suc i)" by blast
      then show "ptr - ucast pad \<le> pos - 1 - of_nat i" by (simp add: diff_diff_eq)
    qed
    have b: "m (pos - 1 - of_nat k) \<noteq> pad"
      using Suc.prems(2) by (simp add: diff_diff_eq)
    from Suc.IH [OF a b, of "Suc n"] obtain j where j: "j \<le> k"
      and run: "free_align_loop m ptr pad (pos - 1) (Suc n) = Some (False, Suc n + Suc j)"
      by blast
    from loop_next [where m = m and n = n, OF ge True] run
    have "free_align_loop m ptr pad pos n = Some (False, n + Suc (Suc j))" by simp
    moreover from j have "Suc j \<le> Suc k" by simp
    ultimately show ?thesis by blast
  qed
qed

lemma free_align_released:
  "free_align_loop (mem w) ptr (mem w (ptr - 1)) (ptr - 1) 0 = Some (True, k) \<Longrightarrow>
   free_align w ptr = Some (w\<lparr>free_log := (ptr - ucast (mem w (ptr - 1))) # free_log w\<rparr>)"
  by (simp add: free_align_def Let_def)

lemma free_align_refused:
  "free_align_loop (mem w) ptr (mem w (ptr - 1)) (ptr - 1) 0 = Some (False, k) \<Longrightarrow>
   free_align w ptr = Some (w\<lparr>dbg_log := invalid_free_msg # dbg_log w\<rparr>)"
  by (simp add: free_align_def Let_def)

section \<open>A sample allocation\<close>

text \<open>
  \<^verbatim>\<open>malloc_align(10, 8)\<close> on a block at the 8-aligned address \<open>0x1000\<close>: 19 bytes are
  requested, eight bytes of value 8 are written and \<open>0x1008\<close> is returned.
\<close>

lemma sample_req: "malloc_at 0x1000 (ucast (effective_align 8) + 1 + 10) = 0x1000"
  by (simp add: malloc_at_def)

lemma sample_pad: "padding (effective_align 8) 0x1000 = 8"
  by (simp add: effective_align_def padding_def)

lemma sample_alloc:
  "malloc_align (malloc_at 0x1000) (world_of 0) 10 8
     = (0x1008, \<lparr>mem = memset (\<lambda>a. 0) 0x1000 8 8, malloc_log = [19], free_log = [],
                 dbg_log = []\<rparr>)"
  by (simp add: malloc_align_def malloc_at_def world_of_def effective_align_def padding_def)

section \<open>Claims about \<^verbatim>\<open>malloc_align\<close>\<close>

text \<open>
  Claim C8. For every size, \<^verbatim>\<open>malloc_align\<close> called with \<^verbatim>\<open>align == 0\<close> behaves as it
  does with \<^verbatim>\<open>align == 1\<close>: the returned pointer and the whole world after the call
  (the recorded request, hence the number of bytes requested, and the memory, hence the
  padding written) are the same, for any backing allocator and any world before; so are
  the request and, for any backing base, the padding length taken by themselves.
\<close>

theorem malloc_align_zero_is_one:
  "malloc_align malloc w sz 0 = malloc_align malloc w sz 1
   \<and> (ucast (effective_align 0) + 1 + sz :: addr) = ucast (effective_align 1) + 1 + sz
   \<and> padding (effective_align 0) base = padding (effective_align 1) base"
  by (simp add: malloc_align_def effective_align_def)

text \<open>
  Claim C2. For every size and every alignment (0 counting as 1), when the backing
  allocator hands out a block at the non-null address \<open>base\<close>, the padding length is
  \<open>pad = align - (base mod align)\<close> as a number, it lies between 1 and \<open>align\<close>, it is the
  full \<open>align\<close> (never 0) when \<open>base\<close> is already aligned, each of the \<open>pad\<close> bytes
  starting at \<open>base\<close> holds the value \<open>pad\<close> after the call, and the returned pointer is
  \<open>base + pad\<close>.
\<close>

theorem malloc_align_padding:
  assumes "malloc (ucast (effective_align align) + 1 + sz) = base" and "base \<noteq> 0"
  shows "unat (padding (effective_align align) base)
           = unat (effective_align align) - unat base mod unat (effective_align align)
       \<and> 1 \<le> unat (padding (effective_align align) base)
       \<and> unat (padding (effective_align align) base) \<le> unat (effective_align align)
       \<and> (unat base mod unat (effective_align align) = 0
            \<longrightarrow> padding (effective_align align) base = effective_align align)
       \<and> (\<forall>i < unat (padding (effective_align align) base).
             mem (snd (malloc_align malloc w sz align)) (base + of_nat i)
               = padding (effective_align align) base)
       \<and> fst (malloc_align malloc w sz align)
           = base + ucast (padding (effective_align align) base)"
proof -
  let ?a = "effective_align align"
  let ?pad = "padding ?a base"
  have nz: "?a \<noteq> 0" by (rule effective_align_nz)
  have u: "unat ?pad = unat ?a - unat base mod unat ?a" by (rule unat_padding [OF nz])
  have full: "?pad = ?a" if "unat base mod unat ?a = 0"
    using u that by (simp add: word_unat_eq_iff)
  have wr: "\<forall>i < unat ?pad. mem (snd (malloc_align malloc w sz align)) (base + of_nat i) = ?pad"
    by (simp add: memset_written
        malloc_align_success [where malloc = malloc and align = align and sz = sz, OF assms])
  show ?thesis
    using u padding_range [OF nz, of base] full wr
    by (simp add:
        malloc_align_success [where malloc = malloc and align = align and sz = sz, OF assms])
qed

text \<open>
  The scenario of the specification: size 10, alignment 8, a block at the 8-aligned
  address \<open>0x1000\<close>. The padding is 8, the bytes \<open>0x1000\<close> to \<open>0x1007\<close> hold 8 and the
  returned pointer is \<open>0x1008\<close>.
\<close>

theorem malloc_align_padding_witness:
  "malloc_at 0x1000 (ucast (effective_align 8) + 1 + 10) = 0x1000
   \<and> (0x1000 :: addr) \<noteq> 0
   \<and> unat (0x1000 :: addr) mod unat (effective_align 8) = 0
   \<and> padding (effective_align 8) 0x1000 = 8
   \<and> mem (snd (malloc_align (malloc_at 0x1000) (world_of 0) 10 8)) 0x1000 = 8
   \<and> mem (snd (malloc_align (malloc_at 0x1000) (world_of 0) 10 8)) 0x1007 = 8
   \<and> fst (malloc_align (malloc_at 0x1000) (world_of 0) 10 8) = 0x1008"
proof -
  have h1: "malloc_at 0x1000 (ucast (effective_align 8) + 1 + 10) = 0x1000"
    by (simp add: malloc_at_def)
  have h2: "(0x1000 :: addr) \<noteq> 0" by simp
  have h3: "unat (0x1000 :: addr) mod unat (effective_align 8) = 0"
    by (simp add: effective_align_def)
  note T = malloc_align_padding [where malloc = "malloc_at 0x1000" and align = 8 and sz = 10
      and w = "world_of 0", OF h1 h2]
  from T h3 have pad: "padding (effective_align 8) 0x1000 = 8"
    by (simp add: effective_align_def)
  from T have wr: "\<And>i. i < 8 \<Longrightarrow>
      mem (snd (malloc_align (malloc_at 0x1000) (world_of 0) 10 8)) (0x1000 + of_nat i) = 8"
    by (simp add: pad)
  from T have p: "fst (malloc_align (malloc_at 0x1000) (world_of 0) 10 8) = 0x1008"
    by (simp add: pad)
  show ?thesis using h1 h2 h3 pad wr [of 0] wr [of 7] p by simp
qed

text \<open>
  Claim C7, amended. \<^verbatim>\<open>malloc_align\<close> makes one request to the backing allocator, for
  \<open>align + 1 + size\<close> bytes computed in \<^verbatim>\<open>size_t\<close>; whenever that sum fits \<^verbatim>\<open>size_t\<close>
  (it is below \<open>2 ^ 64\<close>) the request is exactly \<open>align + 1 + size\<close> bytes. For every size
  and alignment, if the backing allocator answers with the null pointer, \<^verbatim>\<open>malloc_align\<close>
  returns the null pointer and the world is as before apart from the recorded request:
  no byte of memory is written.
\<close>

theorem malloc_align_request_and_failure:
  "malloc_log (snd (malloc_align malloc w sz align))
     = (ucast (effective_align align) + 1 + sz) # malloc_log w
   \<and> (unat (effective_align align) + 1 + unat sz < 2 ^ 64 \<longrightarrow>
        unat (ucast (effective_align align) + 1 + sz :: addr)
          = unat (effective_align align) + 1 + unat sz)
   \<and> (malloc (ucast (effective_align align) + 1 + sz) = 0 \<longrightarrow>
        malloc_align malloc w sz align
          = (0, w\<lparr>malloc_log := (ucast (effective_align align) + 1 + sz) # malloc_log w\<rparr>))"
proof -
  let ?a = "effective_align align"
  have ua: "unat (ucast ?a :: addr) = unat ?a" by (rule unat_ucast_byte)
  have n: "unat (ucast ?a + 1 + sz :: addr) = unat ?a + 1 + unat sz"
    if nofl: "unat ?a + 1 + unat sz < 2 ^ 64"
  proof -
    have a1: "unat (ucast ?a + 1 :: addr) = unat ?a + 1"
      using nofl by (simp add: unat_add_lem [THEN iffD1] ua)
    show ?thesis using nofl by (simp add: unat_add_lem [THEN iffD1] a1)
  qed
  have lg: "malloc_log (snd (malloc_align malloc w sz align))
              = (ucast ?a + 1 + sz) # malloc_log w"
    by (simp add: malloc_align_def Let_def)
  show ?thesis using n lg malloc_align_fail [of malloc align sz w] by blast
qed

text \<open>
  As written, for every size, the first half of C7 fails: with size
  \<open>0xFFFFFFFFFFFFFFF8\<close> and alignment 8 the sum is \<open>2 ^ 64 + 1\<close> and the request is for
  1 byte.
\<close>

theorem malloc_align_request_wraps_counterexample:
  "malloc_log (snd (malloc_align (malloc_at 0x1000) (world_of 0) 0xFFFFFFFFFFFFFFF8 8)) = [1]
   \<and> unat (1 :: addr) \<noteq> unat (8 :: byte) + 1 + unat (0xFFFFFFFFFFFFFFF8 :: addr)"
  by (simp add: malloc_align_def malloc_at_def world_of_def effective_align_def padding_def)

text \<open>
  The exhausted allocator, size 10, alignment 8: a request for 19 bytes and nothing
  else.
\<close>

theorem malloc_align_request_and_failure_witness:
  "unat (effective_align 8) + 1 + unat (10 :: addr) < 2 ^ 64
   \<and> malloc_at 0 (ucast (effective_align 8) + 1 + 10) = 0
   \<and> malloc_log (snd (malloc_align (malloc_at 0) (world_of 0) 10 8)) = [19]
   \<and> unat (19 :: addr) = unat (8 :: byte) + 1 + unat (10 :: addr)
   \<and> malloc_align (malloc_at 0) (world_of 0) 10 8 = (0, (world_of 0)\<lparr>malloc_log := [19]\<rparr>)"
proof -
  have h1: "unat (effective_align 8) + 1 + unat (10 :: addr) < 2 ^ 64"
    by (simp add: effective_align_def)
  have h2: "malloc_at 0 (ucast (effective_align 8) + 1 + 10) = 0"
    by (simp add: malloc_at_def)
  have n: "(ucast (effective_align 8) + 1 + 10 :: addr) = 19"
    by (simp add: effective_align_def)
  have l: "malloc_log (world_of 0) = []" by (simp add: world_of_def)
  note T = malloc_align_request_and_failure [where malloc = "malloc_at 0" and align = 8
      and sz = 10 and w = "world_of 0"]
  show ?thesis using h1 h2 T by (simp add: n l)
qed

text \<open>
  Claim C1, amended. For every size and every alignment in 1 to 255 (0 counting as 1)
  such that \<open>align + 1 + size\<close> fits \<^verbatim>\<open>size_t\<close>, when the backing allocator hands out a
  non-null block of the requested length that lies inside the address space, the
  pointer returned by \<^verbatim>\<open>malloc_align\<close> is a multiple of \<open>align\<close> (as a word and as a
  number), it lies in the block, and the \<open>size\<close> bytes that follow it lie in the block.
\<close>

theorem malloc_align_aligned_with_room:
  assumes ok: "malloc (ucast (effective_align align) + 1 + sz) = base" "base \<noteq> 0"
    and nofl: "unat (effective_align align) + 1 + unat sz < 2 ^ 64"
    and block: "unat base + unat (ucast (effective_align align) + 1 + sz :: addr) \<le> 2 ^ 64"
  shows "fst (malloc_align malloc w sz align) mod ucast (effective_align align) = 0
       \<and> unat (fst (malloc_align malloc w sz align)) mod unat (effective_align align) = 0
       \<and> within_block base (ucast (effective_align align) + 1 + sz)
            (fst (malloc_align malloc w sz align)) sz"
proof -
  let ?a = "effective_align align"
  let ?pad = "padding ?a base"
  let ?n = "ucast ?a + 1 + sz :: addr"
  have nz: "?a \<noteq> 0" by (rule effective_align_nz)
  have apos: "0 < unat ?a" using nz by (simp add: unat_gt_0)
  have u: "unat ?pad = unat ?a - unat base mod unat ?a" by (rule unat_padding [OF nz])
  have ua: "unat (ucast ?a :: addr) = unat ?a" by (rule unat_ucast_byte)
  have up: "unat (ucast ?pad :: addr) = unat ?pad" by (rule unat_ucast_byte)
  have le: "unat ?pad \<le> unat ?a" by (rule padding_range [OF nz])
  have a1: "unat (ucast ?a + 1 :: addr) = unat ?a + 1"
    using nofl by (simp add: unat_add_lem [THEN iffD1] ua)
  have n: "unat ?n = unat ?a + 1 + unat sz"
    using nofl by (simp add: unat_add_lem [THEN iffD1] a1)
  have p: "unat (base + ucast ?pad) = unat base + unat ?pad"
    using block le by (simp add: unat_add_lem [THEN iffD1] n up)
  have m: "unat (base + ucast ?pad) mod unat ?a = 0"
    by (simp add: p u round_up_nat [OF apos])
  then have wm: "(base + ucast ?pad) mod ucast ?a = 0"
    by (simp add: word_unat_eq_iff unat_mod ua)
  have wb: "within_block base ?n (base + ucast ?pad) sz"
    using le by (simp add: within_block_def p n)
  show ?thesis
    using m wm wb
    by (simp add:
        malloc_align_success [where malloc = malloc and align = align and sz = sz, OF ok])
qed

text \<open>
  As written, for every size, C1 fails: with size \<open>0xFFFFFFFFFFFFFFFF\<close> and alignment 1
  the request wraps to 1 byte; a backing allocator that answers with a one-byte block at
  address 16 succeeds, \<^verbatim>\<open>malloc_align\<close> returns 17, and no byte of the block follows that
  pointer.
\<close>

theorem malloc_align_size_wraps_counterexample:
  "malloc_at 16 (ucast (effective_align 1) + 1 + 0xFFFFFFFFFFFFFFFF) \<noteq> 0
   \<and> malloc_log (snd (malloc_align (malloc_at 16) (world_of 0) 0xFFFFFFFFFFFFFFFF 1)) = [1]
   \<and> fst (malloc_align (malloc_at 16) (world_of 0) 0xFFFFFFFFFFFFFFFF 1) = 17
   \<and> \<not> within_block 16 1
          (fst (malloc_align (malloc_at 16) (world_of 0) 0xFFFFFFFFFFFFFFFF 1))
          0xFFFFFFFFFFFFFFFF"
  by (simp add: malloc_align_def malloc_at_def world_of_def effective_align_def padding_def
      within_block_def)

text \<open>
  Size 10, alignment 8, a block of 19 bytes at the unaligned address \<open>0x1001\<close>: the
  pointer is \<open>0x1008\<close>.
\<close>

theorem malloc_align_aligned_with_room_witness:
  "malloc_at 0x1001 (ucast (effective_align 8) + 1 + 10) = 0x1001
   \<and> (0x1001 :: addr) \<noteq> 0
   \<and> unat (effective_align 8) + 1 + unat (10 :: addr) < 2 ^ 64
   \<and> unat (0x1001 :: addr) + unat (ucast (effective_align 8) + 1 + 10 :: addr) \<le> 2 ^ 64
   \<and> fst (malloc_align (malloc_at 0x1001) (world_of 0) 10 8) = 0x1008
   \<and> fst (malloc_align (malloc_at 0x1001) (world_of 0) 10 8) mod ucast (effective_align 8) = 0
   \<and> within_block 0x1001 19 (fst (malloc_align (malloc_at 0x1001) (world_of 0) 10 8)) 10"
proof -
  have h1: "malloc_at 0x1001 (ucast (effective_align 8) + 1 + 10) = 0x1001"
    by (simp add: malloc_at_def)
  have h2: "(0x1001 :: addr) \<noteq> 0" by simp
  have h3: "unat (effective_align 8) + 1 + unat (10 :: addr) < 2 ^ 64"
    by (simp add: effective_align_def)
  have h4: "unat (0x1001 :: addr) + unat (ucast (effective_align 8) + 1 + 10 :: addr) \<le> 2 ^ 64"
    by (simp add: effective_align_def)
  have n: "(ucast (effective_align 8) + 1 + 10 :: addr) = 19"
    by (simp add: effective_align_def)
  have p: "fst (malloc_align (malloc_at 0x1001) (world_of 0) 10 8) = 0x1008"
    by (simp add: malloc_align_def malloc_at_def effective_align_def padding_def)
  note T = malloc_align_aligned_with_room [where malloc = "malloc_at 0x1001" and align = 8
      and sz = 10 and w = "world_of 0", OF h1 h2 h3 h4]
  show ?thesis using h1 h2 h3 h4 p T by (simp add: n)
qed

section \<open>Allocation followed by release\<close>

text \<open>
  Claim C3. For every size and alignment and every successful backing allocation at
  \<open>base\<close>, \<^verbatim>\<open>free_align\<close> applied to the pointer that \<^verbatim>\<open>malloc_align\<close> returned, in the
  world that \<^verbatim>\<open>malloc_align\<close> left, returns, emits no diagnostic and passes exactly
  \<open>base\<close> to \<^verbatim>\<open>free\<close>, once: the record of releases grows by the single entry \<open>base\<close>
  and nothing else changes. \<^verbatim>\<open>malloc_align\<close> itself releases nothing and reports nothing.
\<close>

theorem malloc_free_roundtrip:
  assumes ok: "malloc (ucast (effective_align align) + 1 + sz) = base" "base \<noteq> 0"
  shows "free_align (snd (malloc_align malloc w sz align)) (fst (malloc_align malloc w sz align))
           = Some ((snd (malloc_align malloc w sz align))\<lparr>free_log := base # free_log w\<rparr>)
       \<and> free_log (snd (malloc_align malloc w sz align)) = free_log w
       \<and> dbg_log (snd (malloc_align malloc w sz align)) = dbg_log w"
proof -
  let ?a = "effective_align align"
  let ?pad = "padding ?a base"
  let ?p = "base + ucast ?pad"
  let ?m = "memset (mem w) base ?pad (unat ?pad)"
  let ?w1 = "w\<lparr>malloc_log := (ucast ?a + 1 + sz) # malloc_log w, mem := ?m\<rparr>"
  note S = malloc_align_success [where malloc = malloc and align = align and sz = sz, OF ok, of w]
  have nz: "?a \<noteq> 0" by (rule effective_align_nz)
  have ge1: "1 \<le> unat ?pad" by (rule padding_range [OF nz])
  have all: "\<forall>i<unat ?pad. ?m (base + of_nat i) = ?pad" by (simp add: memset_written)
  have last: "?p - 1 = base + of_nat (unat ?pad - 1)" using ge1 by (simp add: of_nat_diff)
  have rd: "?m (?p - 1) = ?pad"
    unfolding last using ge1 by (intro memset_written) simp
  have b: "?p - ucast ?pad = base" by simp
  from scan_window [of ?p ?pad ?m 0] ok(2) all obtain k
    where "free_align_loop ?m ?p ?pad (?p - 1) 0 = Some (True, k)"
    unfolding b by auto
  then have "free_align_loop (mem ?w1) ?p (mem ?w1 (?p - 1)) (?p - 1) 0 = Some (True, k)"
    using rd by simp
  from free_align_released [OF this]
  have "free_align ?w1 ?p = Some (?w1\<lparr>free_log := base # free_log w\<rparr>)"
    using rd b by simp
  then show ?thesis by (simp add: S)
qed

theorem malloc_free_roundtrip_witness:
  "malloc_at 0x1000 (ucast (effective_align 8) + 1 + 10) = 0x1000
   \<and> (0x1000 :: addr) \<noteq> 0
   \<and> map_option free_log
         (free_align (snd (malloc_align (malloc_at 0x1000) (world_of 0) 10 8))
            (fst (malloc_align (malloc_at 0x1000) (world_of 0) 10 8))) = Some [0x1000]
   \<and> map_option dbg_log
         (free_align (snd (malloc_align (malloc_at 0x1000) (world_of 0) 10 8))
            (fst (malloc_align (malloc_at 0x1000) (world_of 0) 10 8))) = Some []"
proof -
  have h2: "(0x1000 :: addr) \<noteq> 0" by simp
  have l: "free_log (world_of 0) = []" "dbg_log (world_of 0) = []"
    by (simp_all add: world_of_def)
  note T = malloc_free_roundtrip [where malloc = "malloc_at 0x1000" and align = 8 and sz = 10
      and w = "world_of 0", OF sample_req h2]
  show ?thesis using sample_req h2 T l by simp
qed

section \<open>Claims about \<^verbatim>\<open>free_align\<close>\<close>

text \<open>
  Claim C5. If the byte at \<open>ptr - 1\<close> holds 0 when \<^verbatim>\<open>free_align\<close> is called, the loop
  condition is false at once: the scan executes no comparison, no diagnostic is emitted,
  and \<^verbatim>\<open>free\<close> receives \<open>ptr - 0\<close>, that is \<open>ptr\<close> itself. The pointer is any non-null
  pointer; for the null pointer \<open>ptr - 1\<close> is not an address below \<open>ptr\<close>.
\<close>

theorem free_align_pad_zero:
  assumes "mem w (ptr - 1) = 0" and "ptr \<noteq> 0"
  shows "free_align_loop (mem w) ptr (mem w (ptr - 1)) (ptr - 1) 0 = Some (True, 0)
       \<and> free_align w ptr = Some (w\<lparr>free_log := ptr # free_log w\<rparr>)"
proof -
  have l: "free_align_loop (mem w) ptr (mem w (ptr - 1)) (ptr - 1) 0 = Some (True, 0)"
    using assms below_self [of ptr] by (simp add: loop_exit)
  from free_align_released [OF l] l assms(1) show ?thesis by simp
qed

text \<open>
  The allocation of size 10 and alignment 8 at \<open>0x1000\<close> with the byte at \<open>0x1007\<close>
  overwritten by 0: \<^verbatim>\<open>free\<close> receives \<open>0x1008\<close>, not the base \<open>0x1000\<close>.
\<close>

theorem free_align_pad_zero_witness:
  "mem (poke (snd (malloc_align (malloc_at 0x1000) (world_of 0) 10 8)) 0x1007 0) (0x1008 - 1) = 0
   \<and> (0x1008 :: addr) \<noteq> 0
   \<and> fst (malloc_align (malloc_at 0x1000) (world_of 0) 10 8) = 0x1008
   \<and> free_align_loop
        (mem (poke (snd (malloc_align (malloc_at 0x1000) (world_of 0) 10 8)) 0x1007 0))
        0x1008 0 (0x1008 - 1) 0 = Some (True, 0)
   \<and> map_option free_log
        (free_align (poke (snd (malloc_align (malloc_at 0x1000) (world_of 0) 10 8)) 0x1007 0)
           0x1008) = Some [0x1008]
   \<and> map_option dbg_log
        (free_align (poke (snd (malloc_align (malloc_at 0x1000) (world_of 0) 10 8)) 0x1007 0)
           0x1008) = Some []"
proof -
  let ?w = "poke (snd (malloc_align (malloc_at 0x1000) (world_of 0) 10 8)) 0x1007 0"
  have h1: "mem ?w (0x1008 - 1) = 0" by (simp add: mem_poke)
  have h2: "(0x1008 :: addr) \<noteq> 0" by simp
  have l: "free_log ?w = []" "dbg_log ?w = []" by (simp_all add: poke_def sample_alloc)
  note T = free_align_pad_zero [where w = ?w and ptr = "0x1008", OF h1 h2]
  show ?thesis using h1 h2 T l by (simp add: sample_alloc)
qed

text \<open>
  Claim C10. The first byte the scan compares is the byte at \<open>ptr - 1\<close>, from which
  \<open>pad\<close> was read, so the first comparison cannot fail: when the loop is entered the scan
  goes on to \<open>ptr - 2\<close> with one comparison counted. Consequently, if the byte at
  \<open>ptr - 1\<close> holds 1, whatever the padding written at allocation time was, the scan ends
  after that single comparison, no diagnostic is emitted and \<^verbatim>\<open>free\<close> receives
  \<open>ptr - 1\<close>. The pointer is any pointer whose byte \<open>ptr - 1\<close> is not at the null address.
\<close>

theorem free_align_pad_one:
  assumes "mem w (ptr - 1) = 1" and "ptr \<noteq> 1"
  shows "free_align_loop (mem w) ptr (mem w (ptr - 1)) (ptr - 1) n
           = (if ptr - ucast (mem w (ptr - 1)) \<le> ptr - 1
              then free_align_loop (mem w) ptr (mem w (ptr - 1)) (ptr - 1 - 1) (Suc n)
              else Some (True, n))
       \<and> free_align_loop (mem w) ptr (mem w (ptr - 1)) (ptr - 1) 0 = Some (True, 1)
       \<and> free_align w ptr = Some (w\<lparr>free_log := (ptr - 1) # free_log w\<rparr>)"
proof -
  have first: "free_align_loop (mem w) ptr (mem w (ptr - 1)) (ptr - 1) n
           = (if ptr - ucast (mem w (ptr - 1)) \<le> ptr - 1
              then free_align_loop (mem w) ptr (mem w (ptr - 1)) (ptr - 1 - 1) (Suc n)
              else Some (True, n))"
    by (subst free_align_loop.simps) simp
  have nz: "ptr - 1 \<noteq> 0" using assms(2) by simp
  have "free_align_loop (mem w) ptr 1 (ptr - 1 - 1) (Suc 0) = Some (True, Suc 0)"
    using below_self [OF nz] by (simp add: loop_exit)
  then have l: "free_align_loop (mem w) ptr (mem w (ptr - 1)) (ptr - 1) 0 = Some (True, 1)"
    using assms(1) by (simp add: loop_next)
  from free_align_released [OF l] first l assms(1) show ?thesis by simp
qed

text \<open>
  An allocation with alignment 16 at \<open>0x2000\<close> (padding 16, pointer \<open>0x2010\<close>) whose byte
  at \<open>0x200F\<close> is overwritten by 1: one comparison, no diagnostic, \<^verbatim>\<open>free(0x200F)\<close>.
\<close>

theorem free_align_pad_one_witness:
  "mem (poke (snd (malloc_align (malloc_at 0x2000) (world_of 0) 32 16)) 0x200F 1) (0x2010 - 1) = 1
   \<and> (0x2010 :: addr) \<noteq> 1
   \<and> fst (malloc_align (malloc_at 0x2000) (world_of 0) 32 16) = 0x2010
   \<and> padding (effective_align 16) 0x2000 = 16
   \<and> free_align_loop
        (mem (poke (snd (malloc_align (malloc_at 0x2000) (world_of 0) 32 16)) 0x200F 1))
        0x2010 1 (0x2010 - 1) 0 = Some (True, 1)
   \<and> map_option free_log
        (free_align (poke (snd (malloc_align (malloc_at 0x2000) (world_of 0) 32 16)) 0x200F 1)
           0x2010) = Some [0x200F]
   \<and> map_option dbg_log
        (free_align (poke (snd (malloc_align (malloc_at 0x2000) (world_of 0) 32 16)) 0x200F 1)
           0x2010) = Some []"
proof -
  let ?r = "malloc_align (malloc_at 0x2000) (world_of 0) 32 16"
  let ?w = "poke (snd ?r) 0x200F 1"
  have pd: "padding (effective_align 16) 0x2000 = 16"
    by (simp add: effective_align_def padding_def)
  have al: "fst ?r = 0x2010" "free_log (snd ?r) = []" "dbg_log (snd ?r) = []"
    by (simp_all add: malloc_align_def malloc_at_def world_of_def pd Let_def)
  have h1: "mem ?w (0x2010 - 1) = 1" by (simp add: mem_poke)
  have h2: "(0x2010 :: addr) \<noteq> 1" by simp
  have l: "free_log ?w = []" "dbg_log ?w = []" by (simp_all add: poke_def al)
  note T = free_align_pad_one [where w = ?w and ptr = "0x2010" and n = 0, OF h1 h2]
  from T have "free_align_loop (mem ?w) 0x2010 (mem ?w (0x2010 - 1)) (0x2010 - 1) 0 = Some (True, 1)"
    and "free_align ?w 0x2010 = Some (?w\<lparr>free_log := (0x2010 - 1) # free_log ?w\<rparr>)"
    by blast+
  then show ?thesis using h1 h2 l al pd by simp
qed

text \<open>
  Claim C9. \<^verbatim>\<open>free_align\<close> returns: for every value \<open>pad\<close> of the byte at \<open>ptr - 1\<close>
  and arbitrary contents of memory, the scan executes at most \<open>pad\<close> comparisons, hence
  at most 255, and then the function either emits the diagnostic or calls \<^verbatim>\<open>free\<close>.
  The pointers covered are those for which the lower bound \<open>ptr - pad\<close> of the scan is
  not the null address, which holds for every pointer above the first 255 bytes of the
  address space; a scan with the null address as its bound would have to read from it.
\<close>

theorem free_align_terminates:
  assumes "ptr - ucast (mem w (ptr - 1)) \<noteq> 0"
  shows "\<exists>ok k. free_align_loop (mem w) ptr (mem w (ptr - 1)) (ptr - 1) 0 = Some (ok, k)
           \<and> k \<le> unat (mem w (ptr - 1)) \<and> k \<le> 255
           \<and> free_align w ptr
               = Some (if ok then w\<lparr>free_log := (ptr - ucast (mem w (ptr - 1))) # free_log w\<rparr>
                       else w\<lparr>dbg_log := invalid_free_msg # dbg_log w\<rparr>)"
proof -
  from scan_window [OF assms, of "mem w" 0] obtain ok k
    where k: "k \<le> unat (mem w (ptr - 1))"
      and l: "free_align_loop (mem w) ptr (mem w (ptr - 1)) (ptr - 1) 0 = Some (ok, k)"
    by auto
  have "k \<le> 255" using k unat_byte_le [of "mem w (ptr - 1)"] by simp
  moreover have "free_align w ptr
      = Some (if ok then w\<lparr>free_log := (ptr - ucast (mem w (ptr - 1))) # free_log w\<rparr>
              else w\<lparr>dbg_log := invalid_free_msg # dbg_log w\<rparr>)"
    using l by (cases ok) (simp_all add: free_align_released free_align_refused)
  ultimately show ?thesis using k l by blast
qed

text \<open>
  A world whose memory holds 5 everywhere, pointer \<open>0x3000\<close>: five comparisons, then
  \<^verbatim>\<open>free(0x2FFB)\<close>.
\<close>

theorem free_align_terminates_witness:
  "(0x3000 :: addr) - ucast (mem (world_of 5) (0x3000 - 1)) \<noteq> 0
   \<and> free_align_loop (mem (world_of 5)) 0x3000 (mem (world_of 5) (0x3000 - 1)) (0x3000 - 1) 0
       = Some (True, 5)
   \<and> (5 :: nat) \<le> unat (mem (world_of 5) (0x3000 - 1))
   \<and> map_option free_log (free_align (world_of 5) 0x3000) = Some [0x2FFB]
   \<and> map_option dbg_log (free_align (world_of 5) 0x3000) = Some []"
proof -
  have h: "(0x3000 :: addr) - ucast (mem (world_of 5) (0x3000 - 1)) \<noteq> 0"
    by (simp add: world_of_def)
  have run: "free_align_loop (mem (world_of 5)) 0x3000 (mem (world_of 5) (0x3000 - 1))
               (0x3000 - 1) 0 = Some (True, 5)"
    by (simp add: free_align_loop.simps world_of_def)
  from free_align_terminates [where w = "world_of 5" and ptr = "0x3000", OF h] run
  have cnt: "(5 :: nat) \<le> unat (mem (world_of 5) (0x3000 - 1))"
    and fr: "free_align (world_of 5) 0x3000
      = Some ((world_of 5)\<lparr>free_log :=
          (0x3000 - ucast (mem (world_of 5) (0x3000 - 1))) # free_log (world_of 5)\<rparr>)"
    by auto
  have "map_option free_log (free_align (world_of 5) 0x3000) = Some [0x2FFB]"
    and "map_option dbg_log (free_align (world_of 5) 0x3000) = Some []"
    unfolding fr by (simp_all add: world_of_def)
  with h run cnt show ?thesis by blast
qed

text \<open>
  Claim C6. Whenever the scan comes to a byte that differs from the value \<open>pad\<close> read
  at \<open>ptr - 1\<close> (the byte \<open>k\<close> positions below \<open>ptr - 1\<close> differs, and the loop condition
  admits that position and the positions above it), \<^verbatim>\<open>free_align\<close> emits the one
  diagnostic message and returns: nothing is passed to \<^verbatim>\<open>free\<close>, and memory and the
  record of allocations are as before.
\<close>

theorem free_align_refusal_leaves_world:
  assumes "\<forall>i\<le>k. ptr - ucast (mem w (ptr - 1)) \<le> ptr - 1 - of_nat i"
    and "mem w (ptr - 1 - of_nat k) \<noteq> mem w (ptr - 1)"
  shows "free_align w ptr = Some (w\<lparr>dbg_log := invalid_free_msg # dbg_log w\<rparr>)"
proof -
  from scan_finds [where m = "mem w" and pos = "ptr - 1" and pad = "mem w (ptr - 1)" and n = 0,
      OF assms] obtain j
    where "free_align_loop (mem w) ptr (mem w (ptr - 1)) (ptr - 1) 0 = Some (False, Suc j)"
    by auto
  then show ?thesis by (rule free_align_refused)
qed

text \<open>
  The sample allocation with the byte at \<open>0x1005\<close> overwritten by 7: the scan reads
  \<open>pad = 8\<close> at \<open>0x1007\<close>, passes \<open>0x1006\<close> and stops at \<open>0x1005\<close>.
\<close>

theorem free_align_refusal_leaves_world_witness:
  "mem (poke (snd (malloc_align (malloc_at 0x1000) (world_of 0) 10 8)) 0x1005 7) 0x1007 = 8
   \<and> (0x1008 :: addr) - ucast (8 :: byte) \<le> 0x1008 - 1 - of_nat (0 :: nat)
   \<and> (0x1008 :: addr) - ucast (8 :: byte) \<le> 0x1008 - 1 - of_nat (1 :: nat)
   \<and> (0x1008 :: addr) - ucast (8 :: byte) \<le> 0x1008 - 1 - of_nat (2 :: nat)
   \<and> mem (poke (snd (malloc_align (malloc_at 0x1000) (world_of 0) 10 8)) 0x1005 7)
         (0x1008 - 1 - of_nat (2 :: nat))
       \<noteq> mem (poke (snd (malloc_align (malloc_at 0x1000) (world_of 0) 10 8)) 0x1005 7) (0x1008 - 1)
   \<and> map_option dbg_log
        (free_align (poke (snd (malloc_align (malloc_at 0x1000) (world_of 0) 10 8)) 0x1005 7)
           0x1008) = Some [invalid_free_msg]
   \<and> map_option free_log
        (free_align (poke (snd (malloc_align (malloc_at 0x1000) (world_of 0) 10 8)) 0x1005 7)
           0x1008) = Some []
   \<and> map_option mem
        (free_align (poke (snd (malloc_align (malloc_at 0x1000) (world_of 0) 10 8)) 0x1005 7)
           0x1008)
       = Some (mem (poke (snd (malloc_align (malloc_at 0x1000) (world_of 0) 10 8)) 0x1005 7))"
proof -
  let ?w = "poke (snd (malloc_align (malloc_at 0x1000) (world_of 0) 10 8)) 0x1005 7"
  have rd: "mem ?w 0x1007 = 8"
    by (simp add: mem_poke sample_alloc eval_nat_numeral)
  have rd': "mem ?w (0x1008 - 1) = 8" using rd by simp
  have g0: "(0x1008 :: addr) - ucast (8 :: byte) \<le> 0x1008 - 1 - of_nat (0 :: nat)" by simp
  have g1: "(0x1008 :: addr) - ucast (8 :: byte) \<le> 0x1008 - 1 - of_nat (1 :: nat)" by simp
  have g2: "(0x1008 :: addr) - ucast (8 :: byte) \<le> 0x1008 - 1 - of_nat (2 :: nat)" by simp
  have h1: "\<forall>i\<le>2. (0x1008 :: addr) - ucast (mem ?w (0x1008 - 1)) \<le> 0x1008 - 1 - of_nat i"
  proof (intro allI impI)
    fix i :: nat assume "i \<le> 2"
    then have "i = 0 \<or> i = 1 \<or> i = 2" by arith
    then show "(0x1008 :: addr) - ucast (mem ?w (0x1008 - 1)) \<le> 0x1008 - 1 - of_nat i"
      unfolding rd' using g0 g1 g2 by blast
  qed
  have h2: "mem ?w (0x1008 - 1 - of_nat (2 :: nat)) \<noteq> mem ?w (0x1008 - 1)"
    unfolding rd' by (simp add: mem_poke)
  have l: "free_log ?w = []" "dbg_log ?w = []" by (simp_all add: poke_def sample_alloc)
  note T = free_align_refusal_leaves_world [where w = ?w and ptr = "0x1008" and k = 2, OF h1 h2]
  show ?thesis using rd g0 g1 g2 h2 T l by simp
qed

text \<open>
  Claim C4, amended. After a successful \<^verbatim>\<open>malloc_align\<close> with \<open>pad\<close> padding bytes
  (the padding region lying inside the address space), let exactly one byte of
  \<open>[p - pad, p - 1]\<close>, the byte \<open>j\<close> positions below \<open>p - 1\<close>, be overwritten with a value
  \<open>v\<close> different from \<open>pad\<close>. If the byte is not the one at \<open>p - 1\<close>, or if it is the one
  at \<open>p - 1\<close> while \<open>pad\<close> and \<open>v\<close> are both at least 2 and \<open>p - v\<close> does not wrap below
  address 0, then \<^verbatim>\<open>free_align\<close> emits the diagnostic and passes nothing to \<^verbatim>\<open>free\<close>.
  The byte at \<open>p - 1\<close> is where \<^verbatim>\<open>free_align\<close> reads the length of the scan from, so a
  small value stored there shortens the scan to bytes that agree with it.
\<close>

theorem free_align_detects_overwrite:
  assumes ok: "malloc (ucast (effective_align align) + 1 + sz) = base" "base \<noteq> 0"
    and fit: "unat base + unat (padding (effective_align align) base) \<le> 2 ^ 64"
    and res: "malloc_align malloc w sz align = (p, w1)"
    and j: "j < unat (padding (effective_align align) base)"
    and v: "v \<noteq> padding (effective_align align) base"
    and which: "1 \<le> j \<or> (2 \<le> unat (padding (effective_align align) base)
                          \<and> 2 \<le> unat v \<and> unat v \<le> unat p)"
  shows "free_align (poke w1 (p - 1 - of_nat j) v) p
           = Some ((poke w1 (p - 1 - of_nat j) v)\<lparr>dbg_log := invalid_free_msg # dbg_log w\<rparr>)
       \<and> free_log (poke w1 (p - 1 - of_nat j) v) = free_log w"
proof -
  let ?a = "effective_align align"
  let ?pad = "padding ?a base"
  let ?m1 = "memset (mem w) base ?pad (unat ?pad)"
  let ?w2 = "poke w1 (p - 1 - of_nat j) v"
  note S = malloc_align_success [where malloc = malloc and align = align and sz = sz, OF ok, of w]
  from S res have p: "p = base + ucast ?pad"
    and w1: "w1 = w\<lparr>malloc_log := (ucast ?a + 1 + sz) # malloc_log w, mem := ?m1\<rparr>"
    by simp_all
  have m2: "mem ?w2 = ?m1(p - 1 - of_nat j := v)" by (simp add: mem_poke w1)
  have logs: "dbg_log ?w2 = dbg_log w" "free_log ?w2 = free_log w"
    by (simp_all add: poke_def w1)
  have small: "unat ?pad \<le> 255" by (rule unat_byte_le)
  have up: "unat (ucast ?pad :: addr) = unat ?pad" by (rule unat_ucast_byte)
  have wr: "\<And>i. i < unat ?pad \<Longrightarrow> ?m1 (base + of_nat i) = ?pad" by (rule memset_written)
  have at: "\<And>i. i < unat ?pad \<Longrightarrow> p - 1 - of_nat i = base + of_nat (unat ?pad - 1 - i)"
    by (simp add: p of_nat_diff)
  have cell: "\<And>i. i < unat ?pad \<Longrightarrow> ?m1 (p - 1 - of_nat i) = ?pad"
  proof -
    fix i assume i: "i < unat ?pad"
    then have "unat ?pad - 1 - i < unat ?pad" by simp
    from wr [OF this] show "?m1 (p - 1 - of_nat i) = ?pad" by (simp only: at [OF i])
  qed
  have refused: "\<exists>k. free_align_loop (mem ?w2) p (mem ?w2 (p - 1)) (p - 1) 0 = Some (False, k)"
  proof (cases "1 \<le> j")
    case True
    then have jn: "(of_nat j :: addr) \<noteq> 0" using j small by (intro of_nat_small_nz) simp_all
    from cell [of 0] j have "?m1 (p - 1) = ?pad" by simp
    then have rd: "mem ?w2 (p - 1) = ?pad" using jn by (simp add: m2)
    have b: "p - ucast ?pad = base" by (simp add: p)
    have "mem ?w2 (p - 1 - of_nat j) \<noteq> ?pad" using v by (simp add: m2)
    then have hit: "mem ?w2 (base + of_nat (unat ?pad - 1 - j)) \<noteq> ?pad"
      by (simp only: at [OF j] not_False_eq_True)
    have idx: "unat ?pad - 1 - j < unat ?pad" using j by simp
    have bad: "\<not> (\<forall>i<unat ?pad. mem ?w2 (base + of_nat i) = ?pad)"
      using hit idx by blast
    from scan_window [of p ?pad "mem ?w2" 0, unfolded b, OF ok(2)] fit obtain okk k
      where run: "free_align_loop (mem ?w2) p ?pad (p - 1) 0 = Some (okk, k)"
        and "okk \<longrightarrow> (\<forall>i<unat ?pad. mem ?w2 (base + of_nat i) = ?pad)"
      by auto
    with bad have "\<not> okk" by blast
    with run have "free_align_loop (mem ?w2) p ?pad (p - 1) 0 = Some (False, k)" by simp
    then show ?thesis unfolding rd by blast
  next
    case False
    then have j0: "j = 0" by simp
    with which have big: "2 \<le> unat ?pad" and v2: "2 \<le> unat v" and vp: "unat v \<le> unat p"
      by simp_all
    have uv: "unat (ucast v :: addr) = unat v" by (rule unat_ucast_byte)
    have rd: "mem ?w2 (p - 1) = v" by (simp add: mem_poke j0)
    have ub: "unat (p - ucast v) = unat p - unat v" using vp by (simp add: unat_sub_if' uv)
    have u1: "unat (p - 1) = unat p - 1" using vp v2 by (simp add: unat_sub_if')
    have u2: "unat (p - 2) = unat p - 2" using vp v2 by (simp add: unat_sub_if')
    have ge1: "p - ucast v \<le> p - 1" using v2 vp by (simp add: word_le_nat_alt ub u1)
    have ge2: "p - ucast v \<le> p - 1 - 1" using v2 vp by (simp add: word_le_nat_alt ub u2)
    from cell [of 1] big have "?m1 (p - 1 - 1) = ?pad" by simp
    then have "mem ?w2 (p - 1 - 1) = ?pad" by (simp add: mem_poke j0 w1)
    then have ne: "mem ?w2 (p - 1 - 1) \<noteq> v" using v by simp
    from loop_next [where m = "mem ?w2" and pad = v and n = 0, OF ge1 rd]
      loop_bad [where m = "mem ?w2" and pad = v and n = "Suc 0", OF ge2 ne]
    have "free_align_loop (mem ?w2) p v (p - 1) 0 = Some (False, Suc (Suc 0))" by simp
    then show ?thesis unfolding rd by blast
  qed
  then obtain k where "free_align_loop (mem ?w2) p (mem ?w2 (p - 1)) (p - 1) 0 = Some (False, k)" ..
  from free_align_refused [OF this] logs show ?thesis by simp
qed

text \<open>
  As written, for any byte of the padding and any value, C4 fails: in the sample
  allocation (padding 8, pointer \<open>0x1008\<close>) the byte at \<open>0x1007\<close> overwritten with 1 makes
  \<^verbatim>\<open>free_align\<close> call \<^verbatim>\<open>free(0x1007)\<close> without any diagnostic.
\<close>

theorem free_align_length_byte_counterexample:
  "fst (malloc_align (malloc_at 0x1000) (world_of 0) 10 8) = 0x1008
   \<and> padding (effective_align 8) 0x1000 = 8
   \<and> map_option free_log
        (free_align (poke (snd (malloc_align (malloc_at 0x1000) (world_of 0) 10 8)) 0x1007 1)
           0x1008) = Some [0x1007]
   \<and> map_option dbg_log
        (free_align (poke (snd (malloc_align (malloc_at 0x1000) (world_of 0) 10 8)) 0x1007 1)
           0x1008) = Some []"
proof -
  let ?w = "poke (snd (malloc_align (malloc_at 0x1000) (world_of 0) 10 8)) 0x1007 1"
  have rd: "mem ?w (0x1008 - 1) = 1" by (simp add: mem_poke)
  have ex: "\<not> (0x1008 :: addr) - ucast (1 :: byte) \<le> 0x1008 - 1 - 1" by simp
  have ge: "(0x1008 :: addr) - ucast (1 :: byte) \<le> 0x1008 - 1" by simp
  from loop_next [where m = "mem ?w" and pad = 1 and n = 0, OF ge rd]
    loop_exit [where m = "mem ?w" and n = "Suc 0", OF ex]
  have "free_align_loop (mem ?w) 0x1008 (mem ?w (0x1008 - 1)) (0x1008 - 1) 0 = Some (True, 1)"
    using rd by simp
  from free_align_released [OF this]
  have "free_align ?w 0x1008 = Some (?w\<lparr>free_log := 0x1007 # free_log ?w\<rparr>)"
    using rd by simp
  then show ?thesis
    by (simp add: sample_alloc sample_pad poke_def)
qed

text \<open>
  The sample allocation with the byte at \<open>0x1004\<close> (\<open>j = 3\<close>) overwritten with 0.
\<close>

theorem free_align_detects_overwrite_witness:
  "malloc_at 0x1000 (ucast (effective_align 8) + 1 + 10) = 0x1000
   \<and> (0x1000 :: addr) \<noteq> 0
   \<and> unat (0x1000 :: addr) + unat (padding (effective_align 8) 0x1000) \<le> 2 ^ 64
   \<and> 3 < unat (padding (effective_align 8) 0x1000)
   \<and> 0 \<noteq> padding (effective_align 8) 0x1000
   \<and> fst (malloc_align (malloc_at 0x1000) (world_of 0) 10 8) = 0x1008
   \<and> map_option dbg_log
        (free_align (poke (snd (malloc_align (malloc_at 0x1000) (world_of 0) 10 8)) 0x1004 0)
           0x1008) = Some [invalid_free_msg]
   \<and> map_option free_log
        (free_align (poke (snd (malloc_align (malloc_at 0x1000) (world_of 0) 10 8)) 0x1004 0)
           0x1008) = Some []"
proof -
  let ?r = "malloc_align (malloc_at 0x1000) (world_of 0) 10 8"
  have h2: "(0x1000 :: addr) \<noteq> 0" by simp
  have h3: "unat (0x1000 :: addr) + unat (padding (effective_align 8) 0x1000) \<le> 2 ^ 64"
    by (simp add: sample_pad)
  have h4: "?r = (0x1008, snd ?r)" by (simp add: sample_alloc)
  have h5: "3 < unat (padding (effective_align 8) 0x1000)" by (simp add: sample_pad)
  have h6: "0 \<noteq> padding (effective_align 8) 0x1000" by (simp add: sample_pad)
  have h7: "1 \<le> (3::nat) \<or> (2 \<le> unat (padding (effective_align 8) 0x1000)
                          \<and> 2 \<le> unat (0 :: byte) \<and> unat (0 :: byte) \<le> unat (0x1008 :: addr))"
    by simp
  have l: "free_log (world_of 0) = []" "dbg_log (world_of 0) = []"
    by (simp_all add: world_of_def)
  note T = free_align_detects_overwrite [where malloc = "malloc_at 0x1000" and align = 8
      and sz = 10 and w = "world_of 0" and j = 3 and v = 0, OF sample_req h2 h3 h4 h5 h6 h7]
  have a: "(0x1008 :: addr) - 1 - of_nat 3 = 0x1004" by simp
  from T have "free_align (poke (snd ?r) 0x1004 0) 0x1008
      = Some ((poke (snd ?r) 0x1004 0)\<lparr>dbg_log := [invalid_free_msg]\<rparr>)"
    and "free_log (poke (snd ?r) 0x1004 0) = []"
    unfolding a l by simp_all
  moreover have "fst ?r = 0x1008" by (simp add: sample_alloc)
  ultimately show ?thesis using sample_req h2 h3 h5 h6 by simp
qed

end
